theory Spec2Isabelle
  imports Complex_Main
begin

section \<open>JavaScript values, errors and the adapter\<close>

text \<open>
  The load tests are three copies of one function \<^verbatim>\<open>run(totalConnections, timeoutMs)\<close>
  (\<^verbatim>\<open>load_test/mongo.js\<close>, and the postgres and mysql runners of
  \<^verbatim>\<open>load_test/postgress.js\<close>) and the older script function
  \<^verbatim>\<open>testDatabase(dbName)\<close>. They share the mutable object \<^verbatim>\<open>results\<close>, the
  \<^verbatim>\<open>catch\<close> block that derives an error key, and the average at the end.

  The values that reach \<^verbatim>\<open>results.errors\<close> are JavaScript values: an error code may be
  a number (MongoDB), a string (pg, mysql2, Node system errors) or missing.
\<close>

datatype js_val = Undefined | Num int | Str string

text \<open>Truthiness, as \<^verbatim>\<open>||\<close> tests it: \<^verbatim>\<open>undefined\<close>, \<^verbatim>\<open>0\<close> and \<^verbatim>\<open>''\<close> are falsy.\<close>

fun truthy :: "js_val \<Rightarrow> bool" where
  "truthy Undefined = False"
| "truthy (Num n) = (n \<noteq> 0)"
| "truthy (Str s) = (s \<noteq> [])"

text \<open>\<^verbatim>\<open>a || b\<close>\<close>

definition js_or :: "js_val \<Rightarrow> js_val \<Rightarrow> js_val" where
  "js_or a b = (if truthy a then a else b)"

text \<open>A thrown error object, by the two properties the \<^verbatim>\<open>catch\<close> block reads.\<close>

record js_error =
  code :: js_val
  message :: js_val

text \<open>
  The error with which \<^verbatim>\<open>promiseTimeout.timeout\<close> rejects when its timer fires first:
  the library's \<^verbatim>\<open>TimeoutError\<close> sets \<^verbatim>\<open>this.message = 'Timeout'\<close> and has no
  \<^verbatim>\<open>code\<close> property.
\<close>

definition TimeoutError :: js_error where
  "TimeoutError = \<lparr>code = Undefined, message = Str ''Timeout''\<rparr>"

text \<open>
  How one asynchronous adapter call ends: it resolves after so many nanoseconds, it
  rejects after so many nanoseconds with an error, or it never settles (a hang).
\<close>

datatype settle = Resolves nat | Rejects nat js_error | Pending

text \<open>
  What the database driver does for one attempt: when the \<^verbatim>\<open>for\<close> loop starts the
  attempt (nanoseconds after the call of the function); the error the constructor of the
  client throws, if it throws (\<^verbatim>\<open>new MongoClient(...)\<close>, \<^verbatim>\<open>new Client(...)\<close>: the first
  statement inside \<^verbatim>\<open>try\<close>; the mysql code constructs nothing); and how each of its
  calls ends: the connect, the test query, the close inside \<^verbatim>\<open>try\<close>, and the second
  close in \<^verbatim>\<open>finally\<close> (the same driver method, called again).
\<close>

record behaviour =
  launched :: nat
  construct_call :: "js_error option"
  connect_call :: settle
  query_call :: settle
  close_call :: settle
  cleanup_call :: settle

datatype database = Mongodb | Postgres | Mysql

text \<open>The driver calls one attempt makes, in the order it makes them.\<close>

datatype call = Connect | Query | Close | Cleanup

section \<open>The shared results object\<close>

text \<open>
  The fields of \<^verbatim>\<open>results\<close> that the attempts count into. The readings of the process
  and of the clock (\<^verbatim>\<open>startMemory\<close>, \<^verbatim>\<open>peakMemory\<close>, \<^verbatim>\<open>startTime\<close>, \<^verbatim>\<open>endTime\<close>,
  \<^verbatim>\<open>totalTime\<close>) are left out: no block reads them to decide anything.
\<close>

record results =
  successful :: nat
  failed :: nat
  errors :: "js_val list"
  responseTimes :: "rat list"

text \<open>
  One synchronous block that mutates \<^verbatim>\<open>results\<close>: the end of the \<^verbatim>\<open>try\<close> block
  (with the measured \<^verbatim>\<open>durationMs\<close>), the \<^verbatim>\<open>catch\<close> block (with the caught error), or
  the handler of the timeout wrapper in \<^verbatim>\<open>testDatabase\<close>.
\<close>

datatype action = Completed rat | Caught js_error | TimedOut

text \<open>\<^verbatim>\<open>if (!results.errors.includes(k)) results.errors.push(k)\<close>\<close>

definition push_unique :: "js_val \<Rightarrow> js_val list \<Rightarrow> js_val list" where
  "push_unique k es = (if k \<in> set es then es else es @ [k])"

text \<open>\<^verbatim>\<open>const errorMsg = error.code || error.message\<close>\<close>

definition errorMsg :: "js_error \<Rightarrow> js_val" where
  "errorMsg e = js_or (code e) (message e)"

fun step :: "'a results_scheme \<Rightarrow> action \<Rightarrow> 'a results_scheme" where
  "step r (Completed durationMs) =
     r\<lparr>responseTimes := responseTimes r @ [durationMs], successful := successful r + 1\<rparr>"
| "step r (Caught e) =
     r\<lparr>failed := failed r + 1, errors := push_unique (errorMsg e) (errors r)\<rparr>"
| "step r TimedOut =
     r\<lparr>failed := failed r + 1, errors := push_unique (Str ''Connection Timeout'') (errors r)\<rparr>"

text \<open>
  A number computed in the double arithmetic of JavaScript, written as the expression
  that computes it: a literal or recorded number, \<^verbatim>\<open>a + b\<close>, \<^verbatim>\<open>a / b\<close> and
  \<^verbatim>\<open>Math.round(a)\<close>. The expression is not evaluated: what the IEEE operations round
  to, and that \<^verbatim>\<open>0 / 0\<close> is \<^verbatim>\<open>NaN\<close>, is the language's and not this program's. A
  recorded duration is kept as the exact quotient it was computed from.
\<close>

datatype double = Lit rat | Add double double | Quot double double | Round double

text \<open>
  \<^verbatim>\<open>responseTimes.length > 0
     ? Math.round(responseTimes.reduce((a, b) => a + b, 0) / responseTimes.length) : 0\<close>.
  Without the test of the length an empty list would give \<^verbatim>\<open>Math.round(0 / 0)\<close>, here
  \<open>Round (Quot (Lit 0) (Lit 0))\<close>.
\<close>

definition avgResponseTimeOf :: "rat list \<Rightarrow> double" where
  "avgResponseTimeOf ts =
     (if 0 < length ts
      then Round (Quot (foldl (\<lambda>a b. Add a (Lit b)) (Lit 0) ts) (Lit (of_nat (length ts))))
      else Lit 0)"

section \<open>One attempt of \<open>run\<close>\<close>

text \<open>
  Node's \<^verbatim>\<open>setTimeout\<close> sets a delay below 1 or above \<open>2^31 - 1\<close> to 1 millisecond.
\<close>

definition timer_ms :: "int \<Rightarrow> nat" where
  "timer_ms t = (if t < 1 \<or> 2147483647 < t then 1 else nat t)"

definition deadline_ns :: "int \<Rightarrow> nat" where
  "deadline_ns t = timer_ms t * 1000000"

text \<open>\<^verbatim>\<open>Number(endTime - startTime) / 1_000_000\<close>\<close>

definition durationMs_of :: "nat \<Rightarrow> rat" where
  "durationMs_of ns = of_nat ns / 1000000"

text \<open>
  What one attempt leaves behind: the one block that counted it (with its time), if the
  attempt got that far; whether the promise of the attempt ever settles; and the driver
  calls it made.
\<close>

record trace =
  outcome :: "(nat \<times> action) option"
  settles :: bool
  calls :: "call list"

text \<open>
  \<^verbatim>\<open>if (client) await client.close().catch(() => {})\<close>. For mongodb and postgres
  \<^verbatim>\<open>client\<close> is assigned by the constructor, the first statement inside \<^verbatim>\<open>try\<close>: it is
  set when the constructor returned and stays undefined when the constructor threw. The
  mysql runner assigns \<^verbatim>\<open>connection\<close> from the awaited \<^verbatim>\<open>createConnection\<close>, so it is
  set only when the connect won the race. The rejection of this close is discarded; the
  attempt waits for the close to settle.
\<close>

definition has_client :: "database \<Rightarrow> behaviour \<Rightarrow> bool \<Rightarrow> bool" where
  "has_client db b conn =
     (case db of
        Mongodb \<Rightarrow> construct_call b = None
      | Postgres \<Rightarrow> construct_call b = None
      | Mysql \<Rightarrow> conn)"

definition finally_block :: "database \<Rightarrow> bool \<Rightarrow> behaviour \<Rightarrow> (nat \<times> action) \<Rightarrow> call list \<Rightarrow> trace" where
  "finally_block db conn b ev cs =
     (if has_client db b conn
      then \<lparr>outcome = Some ev, settles = (cleanup_call b \<noteq> Pending), calls = cs @ [Cleanup]\<rparr>
      else \<lparr>outcome = Some ev, settles = True, calls = cs\<rparr>)"

text \<open>An attempt that waits for ever inside \<^verbatim>\<open>try\<close>: nothing is counted.\<close>

definition stuck :: "call list \<Rightarrow> trace" where
  "stuck cs = \<lparr>outcome = None, settles = False, calls = cs\<rparr>"

text \<open>
  What the constructor at the head of \<^verbatim>\<open>try\<close> throws: the mongodb and postgres code
  construct the client there, the mysql code has no constructor.
\<close>

definition constructor_error :: "database \<Rightarrow> behaviour \<Rightarrow> js_error option" where
  "constructor_error db b =
     (case db of
        Mongodb \<Rightarrow> construct_call b
      | Postgres \<Rightarrow> construct_call b
      | Mysql \<Rightarrow> None)"

text \<open>
  The statements of \<^verbatim>\<open>try\<close> after the constructor, with \<^verbatim>\<open>catch\<close> and \<^verbatim>\<open>finally\<close>.
  \<^verbatim>\<open>promiseTimeout.timeout(client.connect(), timeoutMs)\<close> races the connect against a
  timer; the query and the close are awaited as they are. The connect is started before
  the library creates its timer, so a connect that settles exactly at the delay settles
  first: the timer wins only when the connect takes longer than the delay.
\<close>

definition connect_query_close_raced :: "database \<Rightarrow> int \<Rightarrow> behaviour \<Rightarrow> trace" where
  "connect_query_close_raced db timeoutMs b =
     (let t0 = launched b; D = deadline_ns timeoutMs;
          timeout = finally_block db False b (t0 + D, Caught TimeoutError) [Connect]
      in case connect_call b of
           Pending \<Rightarrow> timeout
         | Rejects d e \<Rightarrow>
             if d \<le> D then finally_block db False b (t0 + d, Caught e) [Connect] else timeout
         | Resolves d \<Rightarrow>
             if d \<le> D then
               (case query_call b of
                  Pending \<Rightarrow> stuck [Connect, Query]
                | Rejects d2 e \<Rightarrow>
                    finally_block db True b (t0 + d + d2, Caught e) [Connect, Query]
                | Resolves d2 \<Rightarrow>
                    (case close_call b of
                       Pending \<Rightarrow> stuck [Connect, Query, Close]
                     | Rejects d3 e \<Rightarrow>
                         finally_block db True b (t0 + d + d2 + d3, Caught e)
                           [Connect, Query, Close]
                     | Resolves d3 \<Rightarrow>
                         finally_block db True b
                           (t0 + d + d2 + d3, Completed (durationMs_of (d + d2 + d3)))
                           [Connect, Query, Close]))
             else timeout)"

text \<open>
  The body of the \<^verbatim>\<open>async (index) => { try ... catch ... finally ... }\<close> of \<^verbatim>\<open>run\<close>. A
  constructor that throws goes straight to \<^verbatim>\<open>catch\<close>: no driver call has been made and
  \<^verbatim>\<open>client\<close> is undefined in \<^verbatim>\<open>finally\<close>.
\<close>

definition attempt :: "database \<Rightarrow> int \<Rightarrow> behaviour \<Rightarrow> trace" where
  "attempt db timeoutMs b =
     (case constructor_error db b of
        Some e \<Rightarrow> finally_block db False b (launched b, Caught e) []
      | None \<Rightarrow> connect_query_close_raced db timeoutMs b)"

section \<open>\<open>run\<close>\<close>

record summary = results +
  database :: string
  totalConnections :: int
  avgResponseTime :: double

definition database_name :: "database \<Rightarrow> string" where
  "database_name db = (case db of Mongodb \<Rightarrow> ''mongodb'' | Postgres \<Rightarrow> ''postgres'' | Mysql \<Rightarrow> ''mysql'')"

definition initial :: "database \<Rightarrow> int \<Rightarrow> summary" where
  "initial db n =
     \<lparr>successful = 0, failed = 0, errors = [], responseTimes = [],
      database = database_name db, totalConnections = n, avgResponseTime = Lit 0\<rparr>"

text \<open>
  \<^verbatim>\<open>for (let i = 0; i < totalConnections; i++)\<close>: the attempts are launched for
  \<open>i = 0, ..., totalConnections - 1\<close>, none when \<open>totalConnections \<le> 0\<close>.
\<close>

definition attempts :: "database \<Rightarrow> int \<Rightarrow> int \<Rightarrow> (nat \<Rightarrow> behaviour) \<Rightarrow> trace list" where
  "attempts db n timeoutMs adapter =
     map (\<lambda>i. attempt db timeoutMs (adapter i)) [0..<nat n]"

text \<open>
  The blocks that mutate \<^verbatim>\<open>results\<close> run one at a time, in the order of their times (at
  equal times, in the order of launch).
\<close>

definition occurred :: "'a option \<Rightarrow> 'a list" where
  "occurred x = (case x of None \<Rightarrow> [] | Some e \<Rightarrow> [e])"

definition run_events :: "database \<Rightarrow> int \<Rightarrow> int \<Rightarrow> (nat \<Rightarrow> behaviour) \<Rightarrow> (nat \<times> action) list" where
  "run_events db n timeoutMs adapter =
     sort_key fst (concat (map (\<lambda>tr. occurred (outcome tr))
       (attempts db n timeoutMs adapter)))"

text \<open>The state of \<^verbatim>\<open>results\<close> after the first \<open>k\<close> of these blocks.\<close>

definition run_state :: "database \<Rightarrow> int \<Rightarrow> int \<Rightarrow> (nat \<Rightarrow> behaviour) \<Rightarrow> nat \<Rightarrow> summary" where
  "run_state db n timeoutMs adapter k =
     foldl step (initial db n)
       (map snd (take k (run_events db n timeoutMs adapter)))"

text \<open>
  \<^verbatim>\<open>await Promise.allSettled(promises)\<close> resumes once every attempt has settled, and
  never when one of them does not: \<open>None\<close> is a call of \<open>run\<close> that never returns.
  The driver calls of a run are the calls of its attempts.
\<close>

definition run :: "database \<Rightarrow> int \<Rightarrow> int \<Rightarrow> (nat \<Rightarrow> behaviour) \<Rightarrow> summary option" where
  "run db n timeoutMs adapter =
     (if list_all settles (attempts db n timeoutMs adapter) then
        (let r = run_state db n timeoutMs adapter
                   (length (run_events db n timeoutMs adapter))
         in Some (r\<lparr>avgResponseTime := avgResponseTimeOf (responseTimes r)\<rparr>))
      else None)"

definition run_calls :: "database \<Rightarrow> int \<Rightarrow> int \<Rightarrow> (nat \<Rightarrow> behaviour) \<Rightarrow> (nat \<times> call) list" where
  "run_calls db n timeoutMs adapter =
     concat (map (\<lambda>i. map (Pair i) (calls (attempt db timeoutMs (adapter i))))
       [0..<nat n])"

section \<open>\<open>testDatabase\<close>\<close>

definition TOTAL_CONNECTIONS :: nat where
  "TOTAL_CONNECTIONS = 500"

definition CONNECTION_TIMEOUT_MS :: int where
  "CONNECTION_TIMEOUT_MS = 10000"

text \<open>
  The three driver calls of one \<^verbatim>\<open>case\<close> of the \<^verbatim>\<open>switch\<close>, awaited one after the
  other with no timer: the nanoseconds until the \<^verbatim>\<open>try\<close> or \<^verbatim>\<open>catch\<close> block counts the
  attempt, and what it counts; \<open>None\<close> when a call never settles.
\<close>

definition connect_query_close :: "behaviour \<Rightarrow> (nat \<times> action) option" where
  "connect_query_close b =
     (case connect_call b of
        Pending \<Rightarrow> None
      | Rejects d e \<Rightarrow> Some (d, Caught e)
      | Resolves d \<Rightarrow>
          (case query_call b of
             Pending \<Rightarrow> None
           | Rejects d2 e \<Rightarrow> Some (d + d2, Caught e)
           | Resolves d2 \<Rightarrow>
               (case close_call b of
                  Pending \<Rightarrow> None
                | Rejects d3 e \<Rightarrow> Some (d + d2 + d3, Caught e)
                | Resolves d3 \<Rightarrow>
                    Some (d + d2 + d3, Completed (durationMs_of (d + d2 + d3))))))"

text \<open>
  The cases \<^verbatim>\<open>'postgres'\<close> and \<^verbatim>\<open>'mongodb'\<close> construct the client first, inside
  \<^verbatim>\<open>try\<close>: a constructor that throws is caught at once.
\<close>

definition construct_connect_query_close :: "behaviour \<Rightarrow> (nat \<times> action) option" where
  "construct_connect_query_close b =
     (case construct_call b of
        Some e \<Rightarrow> Some (0, Caught e)
      | None \<Rightarrow> connect_query_close b)"

text \<open>
  The inner \<^verbatim>\<open>async (index) => { try { switch (dbName) ... } catch ... finally ... }\<close>.
  Its \<^verbatim>\<open>finally\<close> block only samples the memory; it closes nothing.
\<close>

definition inner :: "database \<Rightarrow> behaviour \<Rightarrow> (nat \<times> action) option" where
  "inner dbName b =
     (case dbName of
        Postgres \<Rightarrow> construct_connect_query_close b
      | Mysql \<Rightarrow> connect_query_close b
      | Mongodb \<Rightarrow> construct_connect_query_close b)"

text \<open>
  \<^verbatim>\<open>promiseTimeout.timeout(promise, CONNECTION_TIMEOUT_MS).catch(error => ...)\<close>: the
  blocks of one attempt that mutate \<^verbatim>\<open>results\<close>, each with its time and with whether it
  settles the promise pushed to \<^verbatim>\<open>promises\<close>. When the timer fires first the handler
  counts a failure, and the inner function, which nothing cancels, still runs its own
  block when its calls settle. The inner function is started before the timer is created:
  the timer fires first only when the inner function takes longer than the delay.
\<close>

definition wrapped :: "database \<Rightarrow> behaviour \<Rightarrow> (nat \<times> bool \<times> action) list" where
  "wrapped dbName b =
     (let t0 = launched b; D = deadline_ns CONNECTION_TIMEOUT_MS
      in case inner dbName b of
           None \<Rightarrow> [(t0 + D, True, TimedOut)]
         | Some (d, a) \<Rightarrow>
             if d \<le> D then [(t0 + d, True, a)]
             else [(t0 + D, True, TimedOut), (t0 + d, False, a)])"

definition testDatabase_events :: "database \<Rightarrow> (nat \<Rightarrow> behaviour) \<Rightarrow> (nat \<times> bool \<times> action) list" where
  "testDatabase_events dbName adapter =
     sort_key fst (concat (map (\<lambda>i. wrapped dbName (adapter i)) [0..<TOTAL_CONNECTIONS]))"

text \<open>
  \<^verbatim>\<open>await Promise.allSettled(promises)\<close> resumes right after the last block that settles
  one of the promises.
\<close>

definition until_settled :: "(nat \<times> bool \<times> action) list \<Rightarrow> (nat \<times> bool \<times> action) list" where
  "until_settled evs = rev (dropWhile (\<lambda>ev. \<not> fst (snd ev)) (rev evs))"

definition empty_results :: results where
  "empty_results = \<lparr>successful = 0, failed = 0, errors = [], responseTimes = []\<rparr>"

text \<open>The state of \<^verbatim>\<open>results\<close> after the first \<open>k\<close> blocks of a list.\<close>

definition results_after :: "(nat \<times> bool \<times> action) list \<Rightarrow> nat \<Rightarrow> results" where
  "results_after evs k = foldl step empty_results (map (\<lambda>ev. snd (snd ev)) (take k evs))"

text \<open>The object \<^verbatim>\<open>results\<close> as \<open>testDatabase\<close> returns it.\<close>

definition testDatabase :: "database \<Rightarrow> (nat \<Rightarrow> behaviour) \<Rightarrow> results" where
  "testDatabase dbName adapter =
     (let evs = until_settled (testDatabase_events dbName adapter)
      in results_after evs (length evs))"

text \<open>
  The same object once every callback that was still pending at the return has run: the
  caller holds a reference to the object the late blocks go on mutating.
\<close>

definition testDatabase_later :: "database \<Rightarrow> (nat \<Rightarrow> behaviour) \<Rightarrow> results" where
  "testDatabase_later dbName adapter =
     (let evs = testDatabase_events dbName adapter
      in results_after evs (length evs))"



section \<open>What the specification calls the outcomes\<close>

text \<open>The error key a block pushes (if the list does not hold it yet), if any.\<close>

fun pushed :: "action \<Rightarrow> js_val list" where
  "pushed (Completed durationMs) = []"
| "pushed (Caught e) = [errorMsg e]"
| "pushed TimedOut = [Str ''Connection Timeout'']"

text \<open>The latency a block records, if any.\<close>

fun measured :: "action \<Rightarrow> rat list" where
  "measured (Completed durationMs) = [durationMs]"
| "measured (Caught e) = []"
| "measured TimedOut = []"

text \<open>
  The specification's \<^emph>\<open>first-seen order, deduplicated\<close>: every element once, in the
  order of the first occurrences.
\<close>

definition first_seen :: "'a list \<Rightarrow> 'a list" where
  "first_seen ks = rev (remdups (rev ks))"

text \<open>
  The specification's \<^emph>\<open>the adapter call completes first with an error\<close>: the error
  the constructor or a driver call of the \<^verbatim>\<open>try\<close> block of \<open>run\<close> throws, when the
  connect settles no later than the timer and the constructor, the connect, the query or
  the close rejects.
\<close>

definition thrown :: "database \<Rightarrow> int \<Rightarrow> behaviour \<Rightarrow> js_error option" where
  "thrown db timeoutMs b =
     (case constructor_error db b of
        Some e \<Rightarrow> Some e
      | None \<Rightarrow>
          (case connect_call b of
             Pending \<Rightarrow> None
           | Rejects d e \<Rightarrow> if d \<le> deadline_ns timeoutMs then Some e else None
           | Resolves d \<Rightarrow>
               if d \<le> deadline_ns timeoutMs then
                 (case query_call b of
                    Pending \<Rightarrow> None
                  | Rejects d2 e \<Rightarrow> Some e
                  | Resolves d2 \<Rightarrow>
                      (case close_call b of
                         Pending \<Rightarrow> None
                       | Rejects d3 e \<Rightarrow> Some e
                       | Resolves d3 \<Rightarrow> None))
               else None))"

text \<open>
  The connect resolves no later than the timer fires; the attempt holds a connection
  (the constructor returned and the connect won); and the specification's \<^emph>\<open>Success\<close>:
  constructor, connect (in time), query and the close inside \<^verbatim>\<open>try\<close> all succeed.
\<close>

definition connect_won :: "int \<Rightarrow> behaviour \<Rightarrow> bool" where
  "connect_won timeoutMs b =
     (case connect_call b of
        Pending \<Rightarrow> False
      | Rejects d e \<Rightarrow> False
      | Resolves d \<Rightarrow> d \<le> deadline_ns timeoutMs)"

definition connected_in_time :: "database \<Rightarrow> int \<Rightarrow> behaviour \<Rightarrow> bool" where
  "connected_in_time db timeoutMs b =
     (constructor_error db b = None \<and> connect_won timeoutMs b)"

definition succeeds :: "database \<Rightarrow> int \<Rightarrow> behaviour \<Rightarrow> bool" where
  "succeeds db timeoutMs b =
     (connected_in_time db timeoutMs b \<and>
      (case query_call b of
         Pending \<Rightarrow> False
       | Rejects d2 e \<Rightarrow> False
       | Resolves d2 \<Rightarrow>
           (case close_call b of
              Pending \<Rightarrow> False
            | Rejects d3 e \<Rightarrow> False
            | Resolves d3 \<Rightarrow> True)))"

text \<open>The client of an attempt is constructed: always in the mysql code.\<close>

definition constructed :: "database \<Rightarrow> behaviour \<Rightarrow> bool" where
  "constructed db b = (constructor_error db b = None)"

text \<open>
  Two behaviours of the driver used below: a connect that resolves 10000.5 ms after the
  launch, half a millisecond after the 10 s timer of \<open>testDatabase\<close>, followed by an
  immediate query and close; and an attempt launched 1 ms into the loop whose connect
  never settles.
\<close>

definition late :: behaviour where
  "late = \<lparr>launched = 0, construct_call = None, connect_call = Resolves 10000500000, query_call = Resolves 0,
           close_call = Resolves 0, cleanup_call = Resolves 0\<rparr>"

definition hang :: behaviour where
  "hang = \<lparr>launched = 1000000, construct_call = None, connect_call = Pending, query_call = Pending,
           close_call = Pending, cleanup_call = Pending\<rparr>"

section \<open>Folding the blocks into \<open>results\<close>\<close>

lemma step_counts: "successful (step r a) + failed (step r a) = Suc (successful r + failed r)"
  by (cases a) simp_all

lemma foldl_step_counts:
  "successful (foldl step r as) + failed (foldl step r as) = successful r + failed r + length as"
  by (induction as arbitrary: r) (simp_all add: step_counts)

lemma distinct_push_unique: "distinct es \<Longrightarrow> distinct (push_unique k es)"
  by (simp add: push_unique_def)

lemma first_seen_snoc: "first_seen (ks @ [k]) = push_unique k (first_seen ks)"
  by (simp add: first_seen_def push_unique_def)

lemma first_seen_Nil: "first_seen [] = []"
  by (simp add: first_seen_def)

lemma distinct_first_seen: "distinct (first_seen ks)"
  by (simp add: first_seen_def)

lemma first_seen_append_pushed:
  "first_seen (ks @ pushed a) = (case pushed a of [] \<Rightarrow> first_seen ks | k # _ \<Rightarrow> push_unique k (first_seen ks))"
  by (cases a) (simp_all add: first_seen_snoc)

lemma errors_step:
  "errors r = first_seen ks \<Longrightarrow> errors (step r a) = first_seen (ks @ pushed a)"
  by (cases a) (simp_all add: first_seen_snoc)

lemma errors_foldl_step:
  "errors r = first_seen ks \<Longrightarrow>
   errors (foldl step r as) = first_seen (ks @ concat (map pushed as))"
proof (induction as arbitrary: r ks)
  case Nil
  then show ?case by simp
next
  case (Cons a as)
  from Cons.prems have "errors (step r a) = first_seen (ks @ pushed a)"
    by (rule errors_step)
  from Cons.IH [OF this] show ?case by simp
qed

lemma responseTimes_foldl_step:
  "responseTimes (foldl step r as) = responseTimes r @ concat (map measured as)"
proof (induction as arbitrary: r)
  case Nil
  then show ?case by simp
next
  case (Cons a as)
  show ?case by (cases a) (simp_all add: Cons.IH)
qed

lemma successful_foldl_step:
  "successful (foldl step r as) = successful r + length (concat (map measured as))"
proof (induction as arbitrary: r)
  case Nil
  then show ?case by simp
next
  case (Cons a as)
  show ?case by (cases a) (simp_all add: Cons.IH)
qed

lemma failed_foldl_step:
  "failed (foldl step r as) = failed r + length (concat (map pushed as))"
proof (induction as arbitrary: r)
  case Nil
  then show ?case by simp
next
  case (Cons a as)
  show ?case by (cases a) (simp_all add: Cons.IH)
qed

lemma more_foldl_step: "results.more (foldl step r as) = results.more r"
proof (induction as arbitrary: r)
  case Nil
  then show ?case by simp
next
  case (Cons a as)
  show ?case by (cases a) (simp_all add: Cons.IH)
qed

lemma finally_block_outcome: "outcome (finally_block db c b ev cs) = Some ev"
  by (simp add: finally_block_def)

lemma stuck_simps: "outcome (stuck cs) = None" "settles (stuck cs) = False" "calls (stuck cs) = cs"
  by (simp_all add: stuck_def)

lemma settles_outcome: "settles (attempt db t b) \<Longrightarrow> \<exists>ev. outcome (attempt db t b) = Some ev"
  by (auto simp: attempt_def connect_query_close_raced_def constructor_error_def Let_def finally_block_outcome stuck_simps split: settle.splits if_splits option.splits database.splits)

lemma length_occurred_settles:
  "settles (attempt db t b) \<Longrightarrow> length (occurred (outcome (attempt db t b))) = 1"
  using settles_outcome [of db t b] by (auto simp: occurred_def)

lemma length_concat_ones:
  "list_all (\<lambda>x. length (f x) = 1) xs \<Longrightarrow> length (concat (map f xs)) = length xs"
  by (induction xs) simp_all

lemma length_run_events:
  assumes "list_all settles (attempts db n t adapter)"
  shows "length (run_events db n t adapter) = nat n"
proof -
  have "list_all (\<lambda>tr. length (occurred (outcome tr)) = 1) (attempts db n t adapter)"
    using assms by (auto simp: attempts_def list_all_iff length_occurred_settles)
  then have "length (concat (map (\<lambda>tr. occurred (outcome tr)) (attempts db n t adapter)))
      = length (attempts db n t adapter)"
    by (rule length_concat_ones)
  then show ?thesis by (simp add: run_events_def attempts_def)
qed

lemma run_Some_iff:
  "run db n t adapter = Some r \<longleftrightarrow>
     list_all settles (attempts db n t adapter) \<and>
     r = (run_state db n t adapter (length (run_events db n t adapter)))
           \<lparr>avgResponseTime := avgResponseTimeOf
              (responseTimes (run_state db n t adapter (length (run_events db n t adapter))))\<rparr>"
  by (auto simp: run_def Let_def)

lemma run_counts:
  assumes "run db n t adapter = Some r"
  shows "successful r + failed r = nat n"
proof -
  from assms have s: "list_all settles (attempts db n t adapter)"
    and r: "successful r = successful (run_state db n t adapter (length (run_events db n t adapter)))"
           "failed r = failed (run_state db n t adapter (length (run_events db n t adapter)))"
    by (simp_all add: run_Some_iff)
  show ?thesis
    unfolding r run_state_def
    by (simp add: foldl_step_counts initial_def length_run_events [OF s])
qed

section \<open>\<open>run\<close> with no attempt\<close>

lemma run_no_attempts:
  assumes "n \<le> 0"
  shows "run db n timeoutMs adapter =
           Some \<lparr>successful = 0, failed = 0, errors = [], responseTimes = [],
                 database = database_name db, totalConnections = n, avgResponseTime = Lit 0\<rparr>"
    and "run_calls db n timeoutMs adapter = []"
  using assms
  by (simp_all add: run_def run_state_def run_events_def attempts_def run_calls_def
      initial_def avgResponseTimeOf_def)

text \<open>
  C4. With \<open>totalConnections = 0\<close>, \<open>run\<close> returns, whatever the adapter would do
  (also one whose every call hangs), the summary with \<open>successful = 0\<close>, \<open>failed = 0\<close>,
  no error key, no latency and the average 0, and it makes no driver call.
\<close>

theorem run_zero_attempts:
  "run db 0 timeoutMs adapter =
     Some \<lparr>successful = 0, failed = 0, errors = [], responseTimes = [],
           database = database_name db, totalConnections = 0, avgResponseTime = Lit 0\<rparr>
   \<and> run_calls db 0 timeoutMs adapter = []"
  using run_no_attempts [of 0 db timeoutMs adapter] by simp

theorem run_zero_attempts_witness:
  "run Postgres 0 1000
     (\<lambda>i. \<lparr>launched = 0, construct_call = None, connect_call = Pending, query_call = Pending,
            close_call = Pending, cleanup_call = Pending\<rparr>) =
     Some \<lparr>successful = 0, failed = 0, errors = [], responseTimes = [],
           database = ''postgres'', totalConnections = 0, avgResponseTime = Lit 0\<rparr>
   \<and> run_calls Postgres 0 1000
     (\<lambda>i. \<lparr>launched = 0, construct_call = None, connect_call = Pending, query_call = Pending,
            close_call = Pending, cleanup_call = Pending\<rparr>) = []"
  using run_zero_attempts [of Postgres 1000
      "\<lambda>i. \<lparr>launched = 0, construct_call = None, connect_call = Pending, query_call = Pending,
            close_call = Pending, cleanup_call = Pending\<rparr>"]
  by (simp add: database_name_def)

text \<open>
  C10. A negative \<open>totalConnections\<close> is treated as zero: the loop body never runs, no
  driver call is made, and \<open>run\<close> returns the summary with zero counts, empty lists and
  the average 0 (there is no check of the argument and no error).
\<close>

theorem run_negative_attempts:
  "n < 0 \<Longrightarrow>
   run db n timeoutMs adapter =
     Some \<lparr>successful = 0, failed = 0, errors = [], responseTimes = [],
           database = database_name db, totalConnections = n, avgResponseTime = Lit 0\<rparr>
   \<and> run_calls db n timeoutMs adapter = []"
  using run_no_attempts [of n db timeoutMs adapter] by simp

theorem run_negative_attempts_witness:
  "(- 3 :: int) < 0
   \<and> run Mongodb (- 3) 1000
     (\<lambda>i. \<lparr>launched = 0, construct_call = None, connect_call = Resolves 5, query_call = Resolves 5,
            close_call = Resolves 5, cleanup_call = Resolves 5\<rparr>) =
     Some \<lparr>successful = 0, failed = 0, errors = [], responseTimes = [],
           database = ''mongodb'', totalConnections = - 3, avgResponseTime = Lit 0\<rparr>
   \<and> run_calls Mongodb (- 3) 1000
     (\<lambda>i. \<lparr>launched = 0, construct_call = None, connect_call = Resolves 5, query_call = Resolves 5,
            close_call = Resolves 5, cleanup_call = Resolves 5\<rparr>) = []"
  using run_negative_attempts [of "- 3" Mongodb 1000
      "\<lambda>i. \<lparr>launched = 0, construct_call = None, connect_call = Resolves 5, query_call = Resolves 5,
            close_call = Resolves 5, cleanup_call = Resolves 5\<rparr>"]
  by (simp add: database_name_def)

section \<open>Evaluation rules and further facts about \<open>run\<close>\<close>

lemmas run_eval = run_def attempts_def run_state_def run_events_def attempt_def connect_query_close_raced_def constructor_error_def finally_block_def
  stuck_def has_client_def deadline_ns_def timer_ms_def occurred_def initial_def database_name_def
  avgResponseTimeOf_def durationMs_of_def TimeoutError_def errorMsg_def js_or_def
  push_unique_def run_calls_def upt_rec

lemma connect_called_once:
  "filter (\<lambda>c. c = Connect) (calls (attempt db t b)) =
     (if constructed db b then [Connect] else [])"
  by (simp add: attempt_def connect_query_close_raced_def constructed_def Let_def
      finally_block_def stuck_def split: settle.splits option.splits)

lemma connects_of_calls:
  assumes "\<And>i. filter (\<lambda>c. c = Connect) (calls (f i)) = (if P i then [Connect] else [])"
  shows "map fst (filter (\<lambda>c. snd c = Connect) (concat (map (\<lambda>i. map (Pair i) (calls (f i))) xs)))
           = filter P xs"
proof (induction xs)
  case Nil
  then show ?case by simp
next
  case (Cons x xs)
  have "map fst (filter (\<lambda>c. snd c = Connect) (map (Pair x) (calls (f x))))
      = map (\<lambda>c. x) (filter (\<lambda>c. c = Connect) (calls (f x)))"
    by (simp add: filter_map o_def)
  then show ?case using Cons.IH by (simp add: assms)
qed

lemma run_connects:
  "map fst (filter (\<lambda>c. snd c = Connect) (run_calls db n t adapter)) =
     filter (\<lambda>i. constructed db (adapter i)) [0..<nat n]"
  unfolding run_calls_def
  by (rule connects_of_calls) (rule connect_called_once)

lemma deadline_nonpositive: "t \<le> 0 \<Longrightarrow> deadline_ns t = 1000000"
  by (simp add: deadline_ns_def timer_ms_def)

lemma set_first_seen: "set (first_seen ks) = set ks"
  by (simp add: first_seen_def)

lemma initial_errors: "errors (initial db n) = first_seen []"
  by (simp add: initial_def first_seen_def)

lemma errors_run_state:
  "errors (run_state db n t adapter k) =
     first_seen (concat (map (\<lambda>ev. pushed (snd ev)) (take k (run_events db n t adapter))))"
  unfolding run_state_def
  using errors_foldl_step [OF initial_errors, of db n "map snd (take k (run_events db n t adapter))"]
  by (simp add: o_def)

lemma empty_errors: "errors empty_results = first_seen []"
  by (simp add: empty_results_def first_seen_def)

lemma errors_results_after:
  "errors (results_after evs k) =
     first_seen (concat (map (\<lambda>ev. pushed (snd (snd ev))) (take k evs)))"
  unfolding results_after_def
  using errors_foldl_step [OF empty_errors, of "map (\<lambda>ev. snd (snd ev)) (take k evs)"]
  by (simp add: o_def)

lemma run_summary_fields:
  assumes "run db n t adapter = Some r"
  shows "errors r = errors (run_state db n t adapter (length (run_events db n t adapter)))"
    and "responseTimes r = responseTimes (run_state db n t adapter (length (run_events db n t adapter)))"
    and "successful r = successful (run_state db n t adapter (length (run_events db n t adapter)))"
    and "failed r = failed (run_state db n t adapter (length (run_events db n t adapter)))"
    and "avgResponseTime r = avgResponseTimeOf (responseTimes r)"
  using assms by (simp_all add: run_Some_iff)

section \<open>Timeouts\<close>

text \<open>
  C2, at an input where the code departs from it. One postgres attempt with a timeout
  of 1000 ms whose connect would be refused after 2000 ms: the timer fires first, the
  \<^verbatim>\<open>catch\<close> block of \<open>run\<close> receives the \<^verbatim>\<open>TimeoutError\<close> of promise-timeout and
  records \<^verbatim>\<open>error.code || error.message\<close>, which is the library's message
  \<^verbatim>\<open>'Timeout'\<close>, not \<^verbatim>\<open>'Connection Timeout'\<close> as the handler of \<open>testDatabase\<close>
  records.
\<close>

theorem run_timeout_key:
  "run Postgres 1 1000
     (\<lambda>i. \<lparr>launched = 0, construct_call = None,
            connect_call = Rejects 2000000000
              \<lparr>code = Str ''ECONNREFUSED'', message = Str ''connect ECONNREFUSED''\<rparr>,
            query_call = Resolves 1, close_call = Resolves 1, cleanup_call = Resolves 1\<rparr>) =
   Some \<lparr>successful = 0, failed = 1, errors = [Str ''Timeout''], responseTimes = [],
         database = ''postgres'', totalConnections = 1, avgResponseTime = Lit 0\<rparr>"
  by (simp add: run_eval)

text \<open>
  C3 as stated fails: with \<open>timeoutMs = 0\<close> the function checks nothing. It constructs
  the client, calls connect (and later the close of \<^verbatim>\<open>finally\<close>), and counts the
  attempt as failed when the 1 ms timer wins.
\<close>

theorem run_zero_timeout_counterexample:
  "run Postgres 1 0
     (\<lambda>i. \<lparr>launched = 0, construct_call = None, connect_call = Resolves 5000000, query_call = Resolves 1,
            close_call = Resolves 1, cleanup_call = Resolves 1\<rparr>) =
   Some \<lparr>successful = 0, failed = 1, errors = [Str ''Timeout''], responseTimes = [],
         database = ''postgres'', totalConnections = 1, avgResponseTime = Lit 0\<rparr>
   \<and> run_calls Postgres 1 0
     (\<lambda>i. \<lparr>launched = 0, construct_call = None, connect_call = Resolves 5000000, query_call = Resolves 1,
            close_call = Resolves 1, cleanup_call = Resolves 1\<rparr>) = [(0, Connect), (0, Cleanup)]"
  by (simp add: run_eval)

text \<open>
  C3, amended. A \<open>timeoutMs \<le> 0\<close> is not rejected: the timer of every attempt is set
  to 1 ms, connect is called once for each of the launched attempts
  \<open>0, ..., totalConnections - 1\<close> whose client was constructed, and a run that returns has
  counted every launched attempt once: \<open>successful + failed\<close> is \<open>totalConnections\<close>, or
  0 when \<open>totalConnections\<close> is negative.
\<close>

theorem run_nonpositive_timeout:
  "timeoutMs \<le> 0 \<Longrightarrow> run db n timeoutMs adapter = Some r \<Longrightarrow>
   deadline_ns timeoutMs = 1000000
   \<and> map fst (filter (\<lambda>c. snd c = Connect) (run_calls db n timeoutMs adapter)) =
       filter (\<lambda>i. constructed db (adapter i)) [0..<nat n]
   \<and> successful r + failed r = (if 0 \<le> n then nat n else 0)"
  by (simp add: deadline_nonpositive run_connects run_counts)

theorem run_nonpositive_timeout_witness:
  "(- 5 :: int) \<le> 0
   \<and> run Mongodb 2 (- 5)
     (\<lambda>i. \<lparr>launched = 0,
            construct_call = (if i = 0
              then Some \<lparr>code = Undefined, message = Str ''option url is not supported''\<rparr>
              else None),
            connect_call = Resolves 5000000, query_call = Resolves 1,
            close_call = Resolves 1, cleanup_call = Resolves 1\<rparr>) =
     Some \<lparr>successful = 0, failed = 2,
           errors = [Str ''option url is not supported'', Str ''Timeout''], responseTimes = [],
           database = ''mongodb'', totalConnections = 2, avgResponseTime = Lit 0\<rparr>
   \<and> deadline_ns (- 5) = 1000000
   \<and> map fst (filter (\<lambda>c. snd c = Connect) (run_calls Mongodb 2 (- 5)
     (\<lambda>i. \<lparr>launched = 0,
            construct_call = (if i = 0
              then Some \<lparr>code = Undefined, message = Str ''option url is not supported''\<rparr>
              else None),
            connect_call = Resolves 5000000, query_call = Resolves 1,
            close_call = Resolves 1, cleanup_call = Resolves 1\<rparr>))) = [1]"
proof -
  let ?A = "\<lambda>i :: nat. \<lparr>launched = 0,
            construct_call = (if i = 0
              then Some \<lparr>code = Undefined, message = Str ''option url is not supported''\<rparr>
              else None),
            connect_call = Resolves 5000000, query_call = Resolves 1,
            close_call = Resolves 1, cleanup_call = Resolves 1\<rparr>"
  have le: "(- 5 :: int) \<le> 0" by simp
  have h: "run Mongodb 2 (- 5) ?A =
     Some \<lparr>successful = 0, failed = 2,
           errors = [Str ''option url is not supported'', Str ''Timeout''], responseTimes = [],
           database = ''mongodb'', totalConnections = 2, avgResponseTime = Lit 0\<rparr>"
    by (simp add: run_eval)
  from run_nonpositive_timeout [OF le h]
  have a: "deadline_ns (- 5) = 1000000"
    and b: "map fst (filter (\<lambda>c. snd c = Connect) (run_calls Mongodb 2 (- 5) ?A)) =
       filter (\<lambda>i. constructed Mongodb (?A i)) [0..<nat 2]"
    by blast+
  have c: "filter (\<lambda>i. constructed Mongodb (?A i)) [0..<nat 2] = [1]"
    by (simp add: constructed_def constructor_error_def upt_rec)
  from b c have "map fst (filter (\<lambda>c. snd c = Connect) (run_calls Mongodb 2 (- 5) ?A)) = [1]"
    by (rule trans)
  with le h a show ?thesis by (intro conjI)
qed

section \<open>Error keys and latencies\<close>

lemma thrown_caught:
  "thrown db t b = Some e \<Longrightarrow> \<exists>tm. outcome (attempt db t b) = Some (tm, Caught e)"
  by (auto simp: thrown_def attempt_def connect_query_close_raced_def constructor_error_def Let_def finally_block_def split: settle.splits if_splits option.splits database.splits)

lemma outcome_in_run_events:
  assumes "i < nat n" and "outcome (attempt db t (adapter i)) = Some ev"
  shows "ev \<in> set (run_events db n t adapter)"
proof -
  have "attempt db t (adapter i) \<in> set (attempts db n t adapter)"
    using assms(1) by (simp add: attempts_def)
  moreover have "ev \<in> set (occurred (outcome (attempt db t (adapter i))))"
    using assms(2) by (simp add: occurred_def)
  ultimately show ?thesis
    by (auto simp: run_events_def)
qed

lemma errors_run_summary:
  assumes "run db n t adapter = Some r"
  shows "errors r = first_seen (concat (map (\<lambda>ev. pushed (snd ev)) (run_events db n t adapter)))"
  using run_summary_fields(1) [OF assms] by (simp add: errors_run_state)

lemma responseTimes_run_summary:
  assumes "run db n t adapter = Some r"
  shows "responseTimes r = concat (map (\<lambda>ev. measured (snd ev)) (run_events db n t adapter))"
    and "successful r = length (concat (map (\<lambda>ev. measured (snd ev)) (run_events db n t adapter)))"
  using run_summary_fields(2,3) [OF assms]
  by (simp_all add: run_state_def responseTimes_foldl_step successful_foldl_step initial_def o_def)

lemma responseTimes_results_after:
  "responseTimes (results_after evs k) = concat (map (\<lambda>ev. measured (snd (snd ev))) (take k evs))"
  "successful (results_after evs k) = length (concat (map (\<lambda>ev. measured (snd (snd ev))) (take k evs)))"
  by (simp_all add: results_after_def responseTimes_foldl_step successful_foldl_step
      empty_results_def o_def)

text \<open>
  C5. After every number \<open>k\<close> of blocks of a run, and in the summary \<open>run\<close> returns,
  \<^verbatim>\<open>errors\<close> has no duplicate and is the list of the keys pushed so far in first-seen
  order; the same holds for the \<^verbatim>\<open>results\<close> of \<open>testDatabase\<close> after any number of
  blocks and at its return. Pushing a key the list holds leaves the list as it is, and a
  new key goes to the end.
\<close>

theorem distinct_errors_first_seen:
  "distinct (errors (run_state db n timeoutMs adapter k))
   \<and> errors (run_state db n timeoutMs adapter k) =
       first_seen (concat (map (\<lambda>ev. pushed (snd ev)) (take k (run_events db n timeoutMs adapter))))
   \<and> (\<forall>r. run db n timeoutMs adapter = Some r \<longrightarrow>
        distinct (errors r) \<and>
        errors r = first_seen (concat (map (\<lambda>ev. pushed (snd ev)) (run_events db n timeoutMs adapter))))
   \<and> distinct (errors (results_after evs k))
   \<and> errors (results_after evs k) =
       first_seen (concat (map (\<lambda>ev. pushed (snd (snd ev))) (take k evs)))
   \<and> distinct (errors (testDatabase dbName adapter'))
   \<and> errors (testDatabase dbName adapter') =
       first_seen (concat (map (\<lambda>ev. pushed (snd (snd ev)))
         (until_settled (testDatabase_events dbName adapter'))))
   \<and> push_unique key es = (if key \<in> set es then es else es @ [key])"
  by (simp add: errors_run_state errors_results_after errors_run_summary distinct_first_seen
      testDatabase_def Let_def push_unique_def)

theorem distinct_errors_first_seen_witness:
  "run Postgres 3 1000
     (\<lambda>i. \<lparr>launched = i, construct_call = None,
            connect_call = Rejects 1000
              \<lparr>code = (if i = 1 then Str ''28P01'' else Str ''53300''), message = Str ''refused''\<rparr>,
            query_call = Resolves 1, close_call = Resolves 1, cleanup_call = Resolves 1\<rparr>) =
     Some \<lparr>successful = 0, failed = 3, errors = [Str ''53300'', Str ''28P01''], responseTimes = [],
           database = ''postgres'', totalConnections = 3, avgResponseTime = Lit 0\<rparr>
   \<and> distinct (errors \<lparr>successful = 0, failed = 3, errors = [Str ''53300'', Str ''28P01''],
           responseTimes = [], database = ''postgres'', totalConnections = 3 :: int,
           avgResponseTime = Lit 0\<rparr>)
   \<and> errors \<lparr>successful = 0, failed = 3, errors = [Str ''53300'', Str ''28P01''],
           responseTimes = [], database = ''postgres'', totalConnections = 3 :: int,
           avgResponseTime = Lit 0\<rparr> =
       first_seen (concat (map (\<lambda>ev. pushed (snd ev)) (run_events Postgres 3 1000
         (\<lambda>i. \<lparr>launched = i, construct_call = None,
            connect_call = Rejects 1000
              \<lparr>code = (if i = 1 then Str ''28P01'' else Str ''53300''), message = Str ''refused''\<rparr>,
            query_call = Resolves 1, close_call = Resolves 1, cleanup_call = Resolves 1\<rparr>))))"
proof -
  have h: "run Postgres 3 1000
     (\<lambda>i. \<lparr>launched = i, construct_call = None,
            connect_call = Rejects 1000
              \<lparr>code = (if i = 1 then Str ''28P01'' else Str ''53300''), message = Str ''refused''\<rparr>,
            query_call = Resolves 1, close_call = Resolves 1, cleanup_call = Resolves 1\<rparr>) =
     Some \<lparr>successful = 0, failed = 3, errors = [Str ''53300'', Str ''28P01''], responseTimes = [],
           database = ''postgres'', totalConnections = 3, avgResponseTime = Lit 0\<rparr>"
    by (simp add: run_eval)
  from distinct_errors_first_seen [where db = Postgres and n = 3 and timeoutMs = 1000
      and adapter = "\<lambda>i. \<lparr>launched = i, construct_call = None,
            connect_call = Rejects 1000
              \<lparr>code = (if i = 1 then Str ''28P01'' else Str ''53300''), message = Str ''refused''\<rparr>,
            query_call = Resolves 1, close_call = Resolves 1, cleanup_call = Resolves 1\<rparr>"
      and k = 0 and evs = "[]" and dbName = Postgres and adapter' = "\<lambda>i. \<lparr>launched = 0, construct_call = None, connect_call = Pending, query_call = Pending,
            close_call = Pending, cleanup_call = Pending\<rparr>"
      and key = Undefined and es = "[]"] h
  show ?thesis by blast
qed

lemma run_average:
  assumes "run db n t adapter = Some r"
  shows "responseTimes r = concat (map (\<lambda>ev. measured (snd ev)) (run_events db n t adapter))"
    and "length (responseTimes r) = successful r"
    and "avgResponseTime r =
       (if successful r = 0 then Lit 0
        else Round (Quot (foldl (\<lambda>a b. Add a (Lit b)) (Lit 0) (responseTimes r))
               (Lit (of_nat (successful r)))))"
  using assms
  by (simp_all add: responseTimes_run_summary run_summary_fields(5) avgResponseTimeOf_def)

text \<open>
  For instance, of three mongodb attempts with a timeout of 1000 ms, the first succeeds
  in 1.5 ms, the second has its query rejected, and the third, whose connect settles
  exactly when the timer is due, succeeds in 1001 ms: the average is taken over the two
  successes only.
\<close>

lemma run_average_example:
  "run Mongodb 3 1000
     (\<lambda>i. \<lparr>launched = 0, construct_call = None,
            connect_call = (if i = 2 then Resolves 1000000000 else Resolves 500000),
            query_call = (if i = 1 then Rejects 5 \<lparr>code = Num 50, message = Str ''exceeded''\<rparr>
                          else Resolves 500000),
            close_call = Resolves 500000, cleanup_call = Resolves 0\<rparr>) =
   Some \<lparr>successful = 2, failed = 1, errors = [Num 50], responseTimes = [3 / 2, 1001],
         database = ''mongodb'', totalConnections = 3,
         avgResponseTime = Round (Quot (Add (Add (Lit 0) (Lit (3 / 2))) (Lit 1001)) (Lit 2))\<rparr>"
  by (simp add: run_eval)

text \<open>
  C9 as stated fails where the code is present but falsy: \<^verbatim>\<open>||\<close> tests the truthiness of
  \<^verbatim>\<open>error.code\<close>. An error with the code \<open>0\<close> and the message \<^verbatim>\<open>'boom'\<close> is recorded
  under its message.
\<close>

theorem caught_error_key_counterexample:
  "run Mongodb 1 1000
     (\<lambda>i. \<lparr>launched = 0, construct_call = None, connect_call = Rejects 1000000 \<lparr>code = Num 0, message = Str ''boom''\<rparr>,
            query_call = Resolves 1, close_call = Resolves 1, cleanup_call = Resolves 1\<rparr>) =
   Some \<lparr>successful = 0, failed = 1, errors = [Str ''boom''], responseTimes = [],
         database = ''mongodb'', totalConnections = 1, avgResponseTime = Lit 0\<rparr>"
  by (simp add: run_eval)

text \<open>
  C9, amended. When the constructor or a driver call of the \<^verbatim>\<open>try\<close> block throws an
  error and the timer has not fired first, the summary \<open>run\<close> returns holds the key of
  that attempt: the error's code when the code is truthy (defined, not \<open>0\<close>, not the
  empty string), and its message otherwise.
\<close>

theorem caught_error_key:
  "run db n timeoutMs adapter = Some r \<Longrightarrow> i < nat n \<Longrightarrow>
   thrown db timeoutMs (adapter i) = Some e \<Longrightarrow>
   (if truthy (code e) then code e else message e) \<in> set (errors r)"
proof -
  assume r: "run db n timeoutMs adapter = Some r" and i: "i < nat n"
    and e: "thrown db timeoutMs (adapter i) = Some e"
  from thrown_caught [OF e] obtain tm
    where "outcome (attempt db timeoutMs (adapter i)) = Some (tm, Caught e)" by blast
  from outcome_in_run_events [of i n db timeoutMs adapter, OF i this]
  have "(tm, Caught e) \<in> set (run_events db n timeoutMs adapter)" .
  then have "errorMsg e \<in> set (concat (map (\<lambda>ev. pushed (snd ev)) (run_events db n timeoutMs adapter)))"
    by force
  then have "errorMsg e \<in> set (errors r)"
    by (simp add: errors_run_summary [OF r] set_first_seen)
  then show ?thesis by (simp add: errorMsg_def js_or_def)
qed

theorem caught_error_key_witness:
  "run Mongodb 1 1000
     (\<lambda>i. \<lparr>launched = 0, construct_call = None, connect_call = Rejects 1000000 \<lparr>code = Num 18, message = Str ''auth''\<rparr>,
            query_call = Resolves 1, close_call = Resolves 1, cleanup_call = Resolves 1\<rparr>) =
     Some \<lparr>successful = 0, failed = 1, errors = [Num 18], responseTimes = [],
           database = ''mongodb'', totalConnections = 1, avgResponseTime = Lit 0\<rparr>
   \<and> (0 :: nat) < nat 1
   \<and> thrown Mongodb 1000 \<lparr>launched = 0, construct_call = None,
          connect_call = Rejects 1000000 \<lparr>code = Num 18, message = Str ''auth''\<rparr>,
          query_call = Resolves 1, close_call = Resolves 1, cleanup_call = Resolves 1\<rparr> =
       Some \<lparr>code = Num 18, message = Str ''auth''\<rparr>
   \<and> (if truthy (code \<lparr>code = Num 18, message = Str ''auth''\<rparr>)
        then code \<lparr>code = Num 18, message = Str ''auth''\<rparr>
        else message \<lparr>code = Num 18, message = Str ''auth''\<rparr>)
       \<in> set (errors \<lparr>successful = 0, failed = 1, errors = [Num 18], responseTimes = [],
           database = ''mongodb'', totalConnections = 1 :: int, avgResponseTime = Lit 0\<rparr>)"
proof -
  have h: "run Mongodb 1 1000
     (\<lambda>i. \<lparr>launched = 0, construct_call = None, connect_call = Rejects 1000000 \<lparr>code = Num 18, message = Str ''auth''\<rparr>,
            query_call = Resolves 1, close_call = Resolves 1, cleanup_call = Resolves 1\<rparr>) =
     Some \<lparr>successful = 0, failed = 1, errors = [Num 18], responseTimes = [],
           database = ''mongodb'', totalConnections = 1, avgResponseTime = Lit 0\<rparr>"
    by (simp add: run_eval)
  have i: "(0 :: nat) < nat 1" by simp
  have e: "thrown Mongodb 1000 ((\<lambda>i. \<lparr>launched = 0, construct_call = None,
          connect_call = Rejects 1000000 \<lparr>code = Num 18, message = Str ''auth''\<rparr>,
          query_call = Resolves 1, close_call = Resolves 1, cleanup_call = Resolves 1\<rparr>) (0 :: nat)) =
       Some \<lparr>code = Num 18, message = Str ''auth''\<rparr>"
    by (simp add: thrown_def constructor_error_def deadline_ns_def timer_ms_def)
  from caught_error_key [OF h i e] h i e show ?thesis by simp
qed

section \<open>Every attempt is counted by its own outcome\<close>

lemma length_concat_insort_key:
  "length (concat (map f (insort_key k x xs))) = length (f x) + length (concat (map f xs))"
  by (induction xs) simp_all

lemma length_concat_sort_key:
  "length (concat (map f (sort_key k xs))) = length (concat (map f xs))"
  by (induction xs) (simp_all add: length_concat_insort_key)

lemma length_concat_filter:
  assumes "\<And>x. length (f x) = (if P x then 1 else 0)"
  shows "length (concat (map f xs)) = length (filter P xs)"
  by (induction xs) (simp_all add: assms)

lemma concat_map_concat:
  "concat (map f (concat (map g xs))) = concat (map (\<lambda>x. concat (map f (g x))) xs)"
  by (induction xs) simp_all

lemma measured_attempt:
  "settles (attempt db t b) \<Longrightarrow>
   length (concat (map (\<lambda>ev. measured (snd ev)) (occurred (outcome (attempt db t b))))) =
     (if succeeds db t b then 1 else 0)"
  by (auto simp: attempt_def connect_query_close_raced_def constructor_error_def Let_def finally_block_def stuck_def occurred_def succeeds_def
      connected_in_time_def connect_won_def split: settle.splits option.splits database.splits)

lemma pushed_attempt:
  "settles (attempt db t b) \<Longrightarrow>
   length (concat (map (\<lambda>ev. pushed (snd ev)) (occurred (outcome (attempt db t b))))) =
     (if \<not> succeeds db t b then 1 else 0)"
  by (auto simp: attempt_def connect_query_close_raced_def constructor_error_def Let_def finally_block_def stuck_def occurred_def succeeds_def
      connected_in_time_def connect_won_def split: settle.splits option.splits database.splits)

lemma length_concat_filter_on:
  assumes "\<And>x. x \<in> set xs \<Longrightarrow> length (f x) = (if P x then 1 else 0)"
  shows "length (concat (map f xs)) = length (filter P xs)"
  using assms by (induction xs) simp_all

lemma run_counts_by_attempt:
  assumes "run db n t adapter = Some r"
  shows "successful r = length (filter (\<lambda>i. succeeds db t (adapter i)) [0..<nat n])"
    and "failed r = length (filter (\<lambda>i. \<not> succeeds db t (adapter i)) [0..<nat n])"
proof -
  from assms have s: "list_all settles (attempts db n t adapter)"
    by (simp add: run_Some_iff)
  then have si: "\<And>i. i \<in> set [0..<nat n] \<Longrightarrow> settles (attempt db t (adapter i))"
    by (simp add: attempts_def list_all_iff)
  have "successful r =
      length (concat (map (\<lambda>ev. measured (snd ev)) (run_events db n t adapter)))"
    by (rule responseTimes_run_summary(2) [OF assms])
  also have "\<dots> = length (concat (map (\<lambda>i. concat (map (\<lambda>ev. measured (snd ev))
        (occurred (outcome (attempt db t (adapter i)))))) [0..<nat n]))"
    by (simp add: run_events_def length_concat_sort_key concat_map_concat attempts_def o_def)
  also have "\<dots> = length (filter (\<lambda>i. succeeds db t (adapter i)) [0..<nat n])"
    by (rule length_concat_filter_on) (simp add: measured_attempt si)
  finally show "successful r = length (filter (\<lambda>i. succeeds db t (adapter i)) [0..<nat n])" .
  have "failed r =
      length (concat (map (\<lambda>ev. pushed (snd ev)) (run_events db n t adapter)))"
    using run_summary_fields(4) [OF assms]
    by (simp add: run_state_def failed_foldl_step initial_def o_def)
  also have "\<dots> = length (concat (map (\<lambda>i. concat (map (\<lambda>ev. pushed (snd ev))
        (occurred (outcome (attempt db t (adapter i)))))) [0..<nat n]))"
    by (simp add: run_events_def length_concat_sort_key concat_map_concat attempts_def o_def)
  also have "\<dots> = length (filter (\<lambda>i. \<not> succeeds db t (adapter i)) [0..<nat n])"
    by (rule length_concat_filter_on) (simp add: pushed_attempt si)
  finally show "failed r = length (filter (\<lambda>i. \<not> succeeds db t (adapter i)) [0..<nat n])" .
qed

lemma thrown_not_succeeds: "thrown db t b = Some e \<Longrightarrow> \<not> succeeds db t b"
  by (auto simp: thrown_def succeeds_def connected_in_time_def connect_won_def constructor_error_def split: settle.splits if_splits option.splits database.splits)

lemma attempt_settles_iff:
  "settles (attempt db t b) \<longleftrightarrow>
     (outcome (attempt db t b) \<noteq> None \<and>
      (has_client db b (connect_won t b) \<longrightarrow> cleanup_call b \<noteq> Pending))"
  by (auto simp: attempt_def connect_query_close_raced_def constructor_error_def Let_def finally_block_def stuck_def connected_in_time_def connect_won_def
      has_client_def split: settle.splits option.splits database.splits)

lemma attempt_settles:
  assumes "query_call b \<noteq> Pending" "close_call b \<noteq> Pending" "cleanup_call b \<noteq> Pending"
  shows "settles (attempt db t b)"
  using assms
  by (auto simp: attempt_def connect_query_close_raced_def constructor_error_def Let_def finally_block_def stuck_def split: settle.splits option.splits database.splits)

lemma run_returns:
  assumes "\<forall>i<nat n. query_call (adapter i) \<noteq> Pending \<and> close_call (adapter i) \<noteq> Pending
             \<and> cleanup_call (adapter i) \<noteq> Pending"
  shows "\<exists>r. run db n t adapter = Some r"
proof -
  have "list_all settles (attempts db n t adapter)"
    using assms by (simp add: attempts_def list_all_iff attempt_settles)
  then show ?thesis by (simp add: run_def Let_def)
qed

lemma outcome_cleanup_irrelevant:
  "outcome (attempt db t (b\<lparr>cleanup_call := c\<rparr>)) = outcome (attempt db t b)"
  by (simp add: attempt_def connect_query_close_raced_def constructor_error_def Let_def finally_block_def stuck_def split: settle.splits option.splits database.splits)

lemma run_events_cleanup_irrelevant:
  "run_events db n t (\<lambda>i. (adapter i)\<lparr>cleanup_call := c i\<rparr>) = run_events db n t adapter"
  by (simp add: run_events_def attempts_def o_def outcome_cleanup_irrelevant)

lemma run_cleanup_irrelevant:
  assumes "run db n t adapter = Some r"
    and "run db n t (\<lambda>i. (adapter i)\<lparr>cleanup_call := c i\<rparr>) = Some r'"
  shows "r' = r"
  using assms
  by (simp add: run_Some_iff run_state_def run_events_cleanup_irrelevant)

lemma cleanup_called:
  "outcome (attempt db t b) = Some ev \<Longrightarrow> has_client db b (connect_won t b) \<Longrightarrow>
   filter (\<lambda>c. c = Cleanup) (calls (attempt db t b)) = [Cleanup]
   \<and> last (calls (attempt db t b)) = Cleanup"
  by (auto simp: attempt_def connect_query_close_raced_def constructor_error_def Let_def finally_block_def stuck_def has_client_def
      connected_in_time_def connect_won_def split: settle.splits if_splits option.splits database.splits)

lemma close_rejection_caught:
  "connected_in_time db t b \<Longrightarrow> query_call b = Resolves d2 \<Longrightarrow> close_call b = Rejects d3 e \<Longrightarrow>
   thrown db t b = Some e"
  by (auto simp: thrown_def connected_in_time_def connect_won_def constructor_error_def split: settle.splits option.splits database.splits)

text \<open>
  C7 as stated fails: a rejection of the close in \<^verbatim>\<open>finally\<close> is caught but not
  recorded as a failure. With connect, query and the first close resolved, the attempt
  stays a success and no key is added.
\<close>

theorem adapter_exceptions_caught_counterexample:
  "run Postgres 1 1000
     (\<lambda>i. \<lparr>launched = 0, construct_call = None, connect_call = Resolves 500000,
            query_call = Resolves 500000, close_call = Resolves 500000,
            cleanup_call = Rejects 1000 \<lparr>code = Undefined, message = Str ''already closed''\<rparr>\<rparr>) =
     Some \<lparr>successful = 1, failed = 0, errors = [], responseTimes = [3 / 2],
           database = ''postgres'', totalConnections = 1,
           avgResponseTime = Round (Quot (Add (Lit 0) (Lit (3 / 2))) (Lit 1))\<rparr>"
  by (simp add: run_eval)

text \<open>
  C7, amended. An error thrown by the constructor, by the connect (settling no later
  than the timer), by the query or by the close inside \<^verbatim>\<open>try\<close> is caught inside the
  attempt and recorded as a failure: the attempt is not a success and the key of the
  error is in \<^verbatim>\<open>errors\<close>. A rejection of the close in \<^verbatim>\<open>finally\<close> is caught and
  discarded: it is not recorded, and an attempt is a success exactly when constructor,
  connect, query and the close inside \<^verbatim>\<open>try\<close> succeeded. When every query and close call
  of the driver settles, \<open>run\<close> resolves with such a summary; it has no path that rejects.
\<close>

theorem adapter_exceptions_caught:
  "(\<forall>i<nat n. query_call (adapter i) \<noteq> Pending \<and> close_call (adapter i) \<noteq> Pending
        \<and> cleanup_call (adapter i) \<noteq> Pending) \<Longrightarrow>
   (\<exists>r. run db n timeoutMs adapter = Some r
      \<and> successful r = length (filter (\<lambda>i. succeeds db timeoutMs (adapter i)) [0..<nat n])
      \<and> failed r = length (filter (\<lambda>i. \<not> succeeds db timeoutMs (adapter i)) [0..<nat n])
      \<and> (\<forall>i<nat n. \<forall>e. thrown db timeoutMs (adapter i) = Some e \<longrightarrow>
            \<not> succeeds db timeoutMs (adapter i) \<and> errorMsg e \<in> set (errors r)))"
proof -
  assume a: "\<forall>i<nat n. query_call (adapter i) \<noteq> Pending \<and> close_call (adapter i) \<noteq> Pending
        \<and> cleanup_call (adapter i) \<noteq> Pending"
  from run_returns [OF a] obtain r where r: "run db n timeoutMs adapter = Some r" by blast
  have "\<forall>i<nat n. \<forall>e. thrown db timeoutMs (adapter i) = Some e \<longrightarrow>
            \<not> succeeds db timeoutMs (adapter i) \<and> errorMsg e \<in> set (errors r)"
  proof (intro allI impI)
    fix i e
    assume i: "i < nat n" and e: "thrown db timeoutMs (adapter i) = Some e"
    from thrown_caught [OF e] obtain tm
      where "outcome (attempt db timeoutMs (adapter i)) = Some (tm, Caught e)" by blast
    from outcome_in_run_events [of i n db timeoutMs adapter, OF i this]
    have "(tm, Caught e) \<in> set (run_events db n timeoutMs adapter)" .
    then have "errorMsg e \<in> set (concat (map (\<lambda>ev. pushed (snd ev)) (run_events db n timeoutMs adapter)))"
      by force
    then have "errorMsg e \<in> set (errors r)"
      by (simp add: errors_run_summary [OF r] set_first_seen)
    with thrown_not_succeeds [OF e]
    show "\<not> succeeds db timeoutMs (adapter i) \<and> errorMsg e \<in> set (errors r)" by simp
  qed
  with r run_counts_by_attempt [OF r] show ?thesis by blast
qed

theorem adapter_exceptions_caught_witness:
  "\<exists>r. run Postgres 2 1000
     (\<lambda>i. \<lparr>launched = 0, construct_call = None, connect_call = Resolves 1000000000,
            query_call = (if i = 0 then Rejects 5 \<lparr>code = Str ''57014'', message = Str ''canceled''\<rparr>
                          else Resolves 5),
            close_call = Resolves 1000000, cleanup_call = Resolves 1000\<rparr>) = Some r
     \<and> successful r = 1 \<and> failed r = 1 \<and> Str ''57014'' \<in> set (errors r)"
proof -
  let ?A = "\<lambda>i :: nat. \<lparr>launched = 0, construct_call = None, connect_call = Resolves 1000000000,
            query_call = (if i = 0 then Rejects 5 \<lparr>code = Str ''57014'', message = Str ''canceled''\<rparr>
                          else Resolves 5),
            close_call = Resolves 1000000, cleanup_call = Resolves 1000\<rparr>"
  have p: "\<forall>i<nat 2. query_call (?A i) \<noteq> Pending \<and> close_call (?A i) \<noteq> Pending
        \<and> cleanup_call (?A i) \<noteq> Pending"
    by simp
  have s: "length (filter (\<lambda>i. succeeds Postgres 1000 (?A i)) [0..<nat 2]) = 1"
    by (simp add: succeeds_def connected_in_time_def connect_won_def constructor_error_def deadline_ns_def timer_ms_def upt_rec)
  have f: "length (filter (\<lambda>i. \<not> succeeds Postgres 1000 (?A i)) [0..<nat 2]) = 1"
    by (simp add: succeeds_def connected_in_time_def connect_won_def constructor_error_def deadline_ns_def timer_ms_def upt_rec)
  have e: "thrown Postgres 1000 (?A 0) = Some \<lparr>code = Str ''57014'', message = Str ''canceled''\<rparr>"
    by (simp add: thrown_def constructor_error_def deadline_ns_def timer_ms_def)
  have k: "errorMsg \<lparr>code = Str ''57014'', message = Str ''canceled''\<rparr> = Str ''57014''"
    by (simp add: errorMsg_def js_or_def)
  from adapter_exceptions_caught [where n = 2 and adapter = ?A and db = Postgres
      and timeoutMs = 1000, OF p]
  obtain r where r: "run Postgres 2 1000 ?A = Some r"
    and rs: "successful r = length (filter (\<lambda>i. succeeds Postgres 1000 (?A i)) [0..<nat 2])"
    and rf: "failed r = length (filter (\<lambda>i. \<not> succeeds Postgres 1000 (?A i)) [0..<nat 2])"
    and re: "\<forall>i<nat 2. \<forall>e. thrown Postgres 1000 (?A i) = Some e \<longrightarrow>
            \<not> succeeds Postgres 1000 (?A i) \<and> errorMsg e \<in> set (errors r)"
    by blast
  have z: "(0 :: nat) < nat 2" by simp
  from re [rule_format, OF z e]
  have "errorMsg \<lparr>code = Str ''57014'', message = Str ''canceled''\<rparr> \<in> set (errors r)"
    by (rule conjunct2)
  with k have "Str ''57014'' \<in> set (errors r)" by simp
  with r rs rf s f show ?thesis by simp
qed

text \<open>
  C8 as stated fails: the first close is awaited inside \<^verbatim>\<open>try\<close>, before the attempt is
  counted. When connect and query succeeded and that close rejects, the attempt is
  counted as failed and the key of the close error is recorded.
\<close>

theorem cleanup_close_counterexample:
  "run Mongodb 1 1000
     (\<lambda>i. \<lparr>launched = 0, construct_call = None, connect_call = Resolves 1000000, query_call = Resolves 1000000,
            close_call = Rejects 1000 \<lparr>code = Undefined, message = Str ''socket closed''\<rparr>,
            cleanup_call = Resolves 0\<rparr>) =
   Some \<lparr>successful = 0, failed = 1, errors = [Str ''socket closed''], responseTimes = [],
         database = ''mongodb'', totalConnections = 1, avgResponseTime = Lit 0\<rparr>"
  by (simp add: run_eval)

text \<open>
  C8, amended. In \<open>run\<close>, every attempt that is counted (as success, failure or timeout)
  and whose client variable is set (for mongodb and postgres when the constructor
  returned; for mysql when the connect won the race) calls the close of \<^verbatim>\<open>finally\<close>
  once, as its last driver call. How that close ends never changes the counted outcome
  of the attempt, nor anything in the summary of a run that returns. The close inside
  \<^verbatim>\<open>try\<close> is different: when constructor, connect and query succeeded and it rejects,
  the attempt is counted as failed with that error.
\<close>

theorem cleanup_close:
  "outcome (attempt db timeoutMs b) = Some ev \<Longrightarrow>
   has_client db b (connect_won timeoutMs b) \<Longrightarrow>
   filter (\<lambda>c. c = Cleanup) (calls (attempt db timeoutMs b)) = [Cleanup]
   \<and> last (calls (attempt db timeoutMs b)) = Cleanup
   \<and> outcome (attempt db timeoutMs (b\<lparr>cleanup_call := c\<rparr>)) = Some ev
   \<and> (\<forall>r r'. run db n timeoutMs adapter = Some r \<longrightarrow>
        run db n timeoutMs (\<lambda>i. (adapter i)\<lparr>cleanup_call := c' i\<rparr>) = Some r' \<longrightarrow> r' = r)
   \<and> (\<forall>d2 d3 e. connected_in_time db timeoutMs b \<longrightarrow> query_call b = Resolves d2 \<longrightarrow>
        close_call b = Rejects d3 e \<longrightarrow> snd ev = Caught e)"
proof -
  assume ev: "outcome (attempt db timeoutMs b) = Some ev"
    and hc: "has_client db b (connect_won timeoutMs b)"
  have "\<forall>d2 d3 e. connected_in_time db timeoutMs b \<longrightarrow> query_call b = Resolves d2 \<longrightarrow>
        close_call b = Rejects d3 e \<longrightarrow> snd ev = Caught e"
  proof (intro allI impI)
    fix d2 d3 e
    assume "connected_in_time db timeoutMs b" "query_call b = Resolves d2" "close_call b = Rejects d3 e"
    then have "thrown db timeoutMs b = Some e" by (rule close_rejection_caught)
    from thrown_caught [OF this] ev show "snd ev = Caught e" by auto
  qed
  moreover have "\<forall>r r'. run db n timeoutMs adapter = Some r \<longrightarrow>
        run db n timeoutMs (\<lambda>i. (adapter i)\<lparr>cleanup_call := c' i\<rparr>) = Some r' \<longrightarrow> r' = r"
    using run_cleanup_irrelevant by blast
  ultimately show ?thesis
    using cleanup_called [OF ev hc] ev by (simp add: outcome_cleanup_irrelevant)
qed

theorem cleanup_close_witness:
  "outcome (attempt Postgres 1000
      \<lparr>launched = 0, construct_call = None, connect_call = Pending, query_call = Resolves 1, close_call = Resolves 1,
       cleanup_call = Rejects 7 \<lparr>code = Undefined, message = Str ''not connected''\<rparr>\<rparr>) =
     Some (1000000000, Caught TimeoutError)
   \<and> has_client Postgres
      \<lparr>launched = 0, construct_call = None, connect_call = Pending, query_call = Resolves 1, close_call = Resolves 1,
       cleanup_call = Rejects 7 \<lparr>code = Undefined, message = Str ''not connected''\<rparr>\<rparr>
      (connect_won 1000
        \<lparr>launched = 0, construct_call = None, connect_call = Pending, query_call = Resolves 1,
         close_call = Resolves 1,
         cleanup_call = Rejects 7 \<lparr>code = Undefined, message = Str ''not connected''\<rparr>\<rparr>)
   \<and> filter (\<lambda>c. c = Cleanup) (calls (attempt Postgres 1000
      \<lparr>launched = 0, construct_call = None, connect_call = Pending, query_call = Resolves 1, close_call = Resolves 1,
       cleanup_call = Rejects 7 \<lparr>code = Undefined, message = Str ''not connected''\<rparr>\<rparr>)) = [Cleanup]
   \<and> outcome (attempt Postgres 1000
      (\<lparr>launched = 0, construct_call = None, connect_call = Pending, query_call = Resolves 1, close_call = Resolves 1,
        cleanup_call = Rejects 7 \<lparr>code = Undefined, message = Str ''not connected''\<rparr>\<rparr>
       \<lparr>cleanup_call := Resolves 0\<rparr>)) =
     Some (1000000000, Caught TimeoutError)"
proof -
  let ?b = "\<lparr>launched = 0, construct_call = None, connect_call = Pending, query_call = Resolves 1, close_call = Resolves 1,
       cleanup_call = Rejects 7 \<lparr>code = Undefined, message = Str ''not connected''\<rparr>\<rparr>"
  have h1: "outcome (attempt Postgres 1000 ?b) = Some (1000000000, Caught TimeoutError)"
    by (simp add: attempt_def connect_query_close_raced_def constructor_error_def finally_block_def has_client_def deadline_ns_def timer_ms_def)
  have h2: "has_client Postgres ?b (connect_won 1000 ?b)"
    by (simp add: has_client_def)
  from cleanup_close [where c = "Resolves 0" and n = 0
      and adapter = "\<lambda>i. ?b" and c' = "\<lambda>i. Pending", OF h1 h2] h1 h2
  show ?thesis by blast
qed

section \<open>\<open>testDatabase\<close> counts a late attempt twice\<close>

lemma push_unique_idem: "push_unique k (push_unique k es) = push_unique k es"
  by (simp add: push_unique_def)

lemma foldl_step_TimedOut:
  "foldl step r (replicate (Suc n) TimedOut) =
     r\<lparr>failed := failed r + Suc n,
       errors := push_unique (Str ''Connection Timeout'') (errors r)\<rparr>"
proof (induction n arbitrary: r)
  case 0
  show ?case by simp
next
  case (Suc n)
  have "foldl step r (replicate (Suc (Suc n)) TimedOut) =
      foldl step (step r TimedOut) (replicate (Suc n) TimedOut)"
    by simp
  also have "\<dots> = (step r TimedOut)\<lparr>failed := failed (step r TimedOut) + Suc n,
       errors := push_unique (Str ''Connection Timeout'') (errors (step r TimedOut))\<rparr>"
    by (rule Suc.IH)
  also have "\<dots> = r\<lparr>failed := failed r + Suc (Suc n),
       errors := push_unique (Str ''Connection Timeout'') (errors r)\<rparr>"
    by (simp add: push_unique_idem)
  finally show ?case .
qed

lemma concat_replicate_single: "concat (replicate n [x]) = replicate n x"
  by (induction n) simp_all

lemma concat_map_const:
  assumes "\<And>i. i \<in> set xs \<Longrightarrow> f i = [x]"
  shows "concat (map f xs) = replicate (length xs) x"
  using assms by (induction xs) simp_all

lemma until_settled_last:
  "fst (snd ev) \<Longrightarrow> until_settled (evs @ [ev]) = evs @ [ev]"
  by (simp add: until_settled_def)

lemma wrapped_late:
  "wrapped Postgres late =
     [(10000000000, True, TimedOut), (10000500000, False, Completed (20001 / 2))]"
  by (simp add: wrapped_def inner_def construct_connect_query_close_def connect_query_close_def late_def deadline_ns_def
      timer_ms_def CONNECTION_TIMEOUT_MS_def durationMs_of_def)

lemma wrapped_hang: "wrapped Postgres hang = [(10001000000, True, TimedOut)]"
  by (simp add: wrapped_def inner_def construct_connect_query_close_def connect_query_close_def hang_def deadline_ns_def
      timer_ms_def CONNECTION_TIMEOUT_MS_def)

lemma sorted_three:
  assumes "t1 \<le> t2" "t2 \<le> t3"
  shows "sort_key fst ((t1 :: nat, x1) # (t2, x2) # replicate m (t3, x3)) =
           (t1, x1) # (t2, x2) # replicate m (t3, x3)"
  by (rule sort_key_id_if_sorted) (use assms in auto)

lemma until_settled_three:
  "until_settled (e1 # e2 # replicate (Suc m) (t3, True, a)) =
     e1 # e2 # replicate (Suc m) (t3, True, a)"
proof -
  have "e1 # e2 # replicate (Suc m) (t3, True, a) = (e1 # e2 # replicate m (t3, True, a)) @ [(t3, True, a)]"
    by (simp only: replicate_Suc replicate_append_same append_Cons)
  then show ?thesis
    using until_settled_last [of "(t3, True, a)" "e1 # e2 # replicate m (t3, True, a)"] by simp
qed

lemma results_one_late:
  "foldl step empty_results
     (map (\<lambda>ev. snd (snd ev))
        ((t1, s1, TimedOut) # (t2, s2, Completed x) # replicate (Suc m) (t3, s3, TimedOut))) =
   \<lparr>successful = 1, failed = Suc (Suc m), errors = [Str ''Connection Timeout''],
    responseTimes = [x]\<rparr>"
proof -
  have "map (\<lambda>ev. snd (snd ev))
        ((t1, s1, TimedOut) # (t2, s2, Completed x) # replicate (Suc m) (t3, s3, TimedOut)) =
      TimedOut # Completed x # replicate (Suc m) TimedOut"
    by (simp del: replicate_Suc)
  then show ?thesis
    by (simp add: foldl_step_TimedOut empty_results_def push_unique_def del: replicate_Suc)
qed

lemma testDatabase_three:
  assumes "testDatabase_events d A =
      (t1, True, TimedOut) # (t2, False, Completed x) # replicate (Suc m) (t3, True, TimedOut)"
  shows "testDatabase d A =
     \<lparr>successful = 1, failed = Suc (Suc m), errors = [Str ''Connection Timeout''],
      responseTimes = [x]\<rparr>"
proof -
  have l: "length ((t1, True, TimedOut) # (t2, False, Completed x)
      # replicate (Suc m) (t3, True, TimedOut)) = Suc (Suc (Suc m))"
    by simp
  show ?thesis
    unfolding testDatabase_def Let_def assms until_settled_three results_after_def
    by (simp only: l take_all [OF order_refl] results_one_late
        take_all [of "(t1, True, TimedOut) # (t2, False, Completed x)
      # replicate (Suc m) (t3, True, TimedOut)" "Suc (Suc (Suc m))", OF eq_refl [OF l]])
qed

lemma events_one_late:
  "testDatabase_events Postgres (\<lambda>i. if i = 0 then late else hang) =
     (10000000000, True, TimedOut) # (10000500000, False, Completed (20001 / 2))
       # replicate (Suc 498) (10001000000, True, TimedOut)"
proof -
  have u: "[0..<TOTAL_CONNECTIONS] = 0 # [Suc 0..<500]"
    unfolding TOTAL_CONNECTIONS_def by (rule upt_conv_Cons) simp
  have l: "length [Suc 0..<500] = Suc 498" by simp
  have "concat (map (\<lambda>i. wrapped Postgres (if i = 0 then late else hang)) [Suc 0..<500]) =
      replicate (length [Suc 0..<500]) (10001000000, True, TimedOut)"
    by (rule concat_map_const) (simp add: wrapped_hang)
  then have "concat (map (\<lambda>i. wrapped Postgres (if i = 0 then late else hang)) [Suc 0..<500]) =
      replicate (Suc 498) (10001000000, True, TimedOut)"
    by (simp only: l)
  then have c: "concat (map (\<lambda>i. wrapped Postgres (if i = 0 then late else hang))
        [0..<TOTAL_CONNECTIONS]) =
      (10000000000, True, TimedOut) # (10000500000, False, Completed (20001 / 2))
       # replicate (Suc 498) (10001000000, True, TimedOut)"
    unfolding u by (simp add: wrapped_late del: replicate_Suc)
  show ?thesis
    unfolding testDatabase_events_def c
    by (rule sorted_three) simp_all
qed

lemma testDatabase_one_late:
  "testDatabase Postgres (\<lambda>i. if i = 0 then late else hang) =
     \<lparr>successful = 1, failed = 500, errors = [Str ''Connection Timeout''],
      responseTimes = [20001 / 2]\<rparr>"
proof -
  have "Suc (Suc 498) = (500 :: nat)" by simp
  with testDatabase_three [OF events_one_late] show ?thesis by (simp only:)
qed

text \<open>
  C1, at an input where the code departs from it. \<open>run\<close> counts every attempt once (lemma
  \<open>run_counts\<close>): its timer only races the connect inside the one \<^verbatim>\<open>try\<close> block.
  \<open>testDatabase\<close> wraps the whole attempt from outside, and its timeout handler counts a
  failure while the inner function, which nothing cancels, still counts its own result
  later. With attempt 0 completing half a millisecond after its timer and the other 499
  attempts, launched a millisecond later, hanging until their timers, the object returned
  has \<open>successful = 1\<close> and \<open>failed = 500\<close>: 501 outcomes for \<open>TOTAL_CONNECTIONS = 500\<close>
  attempts.
\<close>

theorem testDatabase_counts_late_attempt_twice:
  "testDatabase Postgres
     (\<lambda>i. if i = 0
          then \<lparr>launched = 0, construct_call = None, connect_call = Resolves 10000500000, query_call = Resolves 0,
                close_call = Resolves 0, cleanup_call = Resolves 0\<rparr>
          else \<lparr>launched = 1000000, construct_call = None, connect_call = Pending, query_call = Pending,
                close_call = Pending, cleanup_call = Pending\<rparr>) =
     \<lparr>successful = 1, failed = 500, errors = [Str ''Connection Timeout''],
      responseTimes = [20001 / 2]\<rparr>
   \<and> TOTAL_CONNECTIONS = 500"
  using testDatabase_one_late [unfolded late_def hang_def]
  by (simp add: TOTAL_CONNECTIONS_def)


end
